theory Spec2Isabelle
  imports Main "HOL-Library.Word"
begin

unbundle bit_operations_syntax

section \<open>Signals and the SetupPacket record\<close>

text \<open>
  The gateware of \<^verbatim>\<open>usb3/application/request.py\<close> is synchronous logic: in every clock
  cycle of the \<^verbatim>\<open>ss\<close> domain each register takes the value of the last assignment that
  is active in that cycle and keeps its value when none is; a combinational signal takes the
  value of the last active assignment and its reset value (zero) when none is. One cycle is
  one application of a step function to the registers and the sampled inputs.

  The validity of a stream is a vector with one bit per byte lane. The declaration of the
  stream interface is not part of the source, so the width of the vector is left open: it is
  a word of any length, and \<^verbatim>\<open>.all()\<close> and \<^verbatim>\<open>.any()\<close> are the two reductions below.
\<close>

definition all_bits :: "'n::len word \<Rightarrow> bool" where
  "all_bits v \<longleftrightarrow> v = - 1"

definition any_bits :: "'n::len word \<Rightarrow> bool" where
  "any_bits v \<longleftrightarrow> v \<noteq> 0"

text \<open>
  Modelled from the spec: the declaration of \<^verbatim>\<open>SetupPacket\<close> (module \<^verbatim>\<open>usb.request\<close>) is
  not part of the source. It is a record of the eight bytes of a control request
  (\<^verbatim>\<open>request_type\<close>, \<^verbatim>\<open>request\<close>, \<^verbatim>\<open>value\<close>, \<^verbatim>\<open>index\<close>, \<^verbatim>\<open>length\<close>; word 0 is bytes 0 to 3,
  word 1 is bytes 4 to 7) followed by the \<^verbatim>\<open>received\<close> strobe. The decoder addresses it as
  a flat bit vector (\<^verbatim>\<open>word_select\<close>, and \<^verbatim>\<open>eq\<close> on the whole record), so it is a 65-bit word
  here: bits 0 to 63 are the fields, bit 64 is \<^verbatim>\<open>received\<close>.
\<close>

type_synonym setup_packet = "65 word"

definition setup_fields :: "setup_packet \<Rightarrow> 64 word" where
  "setup_fields p = ucast p"

definition received :: "setup_packet \<Rightarrow> bool" where
  "received p = bit p 64"

definition setup_request_type :: "setup_packet \<Rightarrow> 8 word" where
  "setup_request_type p = ucast (setup_fields p)"

definition setup_request :: "setup_packet \<Rightarrow> 8 word" where
  "setup_request p = ucast (drop_bit 8 (setup_fields p))"

definition setup_value :: "setup_packet \<Rightarrow> 16 word" where
  "setup_value p = ucast (drop_bit 16 (setup_fields p))"

definition setup_index :: "setup_packet \<Rightarrow> 16 word" where
  "setup_index p = ucast (drop_bit 32 (setup_fields p))"

definition setup_length :: "setup_packet \<Rightarrow> 16 word" where
  "setup_length p = ucast (drop_bit 48 (setup_fields p))"

text \<open>\<^verbatim>\<open>record.received.eq(b)\<close>: an assignment to the strobe bit alone.\<close>

definition received_eq :: "bool \<Rightarrow> setup_packet \<Rightarrow> setup_packet" where
  "received_eq b p = (if b then set_bit 64 p else unset_bit 64 p)"

text \<open>\<^verbatim>\<open>record.word_select(k, 32).eq(d)\<close>: an assignment to the k-th 32-bit slice alone.\<close>

definition word_select_eq :: "nat \<Rightarrow> 32 word \<Rightarrow> setup_packet \<Rightarrow> setup_packet" where
  "word_select_eq k d p =
     (p AND NOT (push_bit (32 * k) (mask 32))) OR push_bit (32 * k) (ucast d)"


section \<open>SuperSpeedSetupDecoder\<close>

datatype fsm_state = WAIT_FOR_FIRST | PARSE_SECOND | WAIT_FOR_VALID

text \<open>The inputs sampled in one cycle: the sink stream, the two verdict strobes and the
  setup flag of the header.\<close>

record 'v decoder_in =
  sink_valid :: 'v
  sink_first :: bool
  sink_last :: bool
  sink_data :: "32 word"
  rx_good :: bool
  rx_bad :: bool
  header_in_setup :: bool

text \<open>The registers: the state of the FSM, the packet captured locally (the local
  \<^verbatim>\<open>packet\<close> of \<^verbatim>\<open>elaborate\<close>) and the output \<^verbatim>\<open>self.packet\<close>.\<close>

record setup_decoder =
  fsm :: fsm_state
  local_packet :: setup_packet
  packet :: setup_packet

definition decoder_reset :: setup_decoder where
  "decoder_reset = \<lparr>fsm = WAIT_FOR_FIRST, local_packet = 0, packet = 0\<rparr>"

text \<open>
  One cycle of \<^verbatim>\<open>SuperSpeedSetupDecoder.elaborate\<close>. The statements are applied in the
  order of the source, a later one overriding an earlier one; every right-hand side reads
  the registers of the current cycle (\<open>s\<close>).
\<close>

definition decoder_step :: "setup_decoder \<Rightarrow> 'n::len word decoder_in \<Rightarrow> setup_decoder" where
  "decoder_step s i =
    (let n0 = s\<lparr>packet := received_eq False (packet s)\<rparr> in
     case fsm s of
       WAIT_FOR_FIRST \<Rightarrow>
         (let packet_starting = (all_bits (sink_valid i) \<and> sink_first i);
              packet_is_setup = header_in_setup i
          in if packet_starting \<and> packet_is_setup
             then n0\<lparr>local_packet := word_select_eq 0 (sink_data i) (local_packet s),
                     fsm := PARSE_SECOND\<rparr>
             else n0)
     | PARSE_SECOND \<Rightarrow>
         (let n1 = (if all_bits (sink_valid i)
                    then (if sink_last i
                          then n0\<lparr>local_packet := word_select_eq 1 (sink_data i) (local_packet s),
                                  fsm := WAIT_FOR_VALID\<rparr>
                          else n0\<lparr>fsm := WAIT_FOR_FIRST\<rparr>)
                    else n0)
          in if rx_bad i then n1\<lparr>fsm := WAIT_FOR_FIRST\<rparr> else n1)
     | WAIT_FOR_VALID \<Rightarrow>
         (let n1 = (if rx_good i
                    then n0\<lparr>packet := received_eq True (local_packet s),
                            fsm := WAIT_FOR_FIRST\<rparr>
                    else n0)
          in if rx_bad i then n1\<lparr>fsm := WAIT_FOR_FIRST\<rparr> else n1))"

text \<open>The decoder run over a sequence of inputs, one per cycle.\<close>

fun decoder_run :: "setup_decoder \<Rightarrow> 'n::len word decoder_in list \<Rightarrow> setup_decoder" where
  "decoder_run s [] = s"
| "decoder_run s (i # is) = decoder_run (decoder_step s i) is"

text \<open>Example inputs on a stream of four byte lanes; \<open>quiet\<close> is a cycle with nothing on
  the stream and no verdict.\<close>

definition quiet :: "4 word decoder_in" where
  "quiet = \<lparr>sink_valid = 0, sink_first = False, sink_last = False,
            sink_data = 0, rx_good = False, rx_bad = False, header_in_setup = False\<rparr>"

definition lanes_valid :: "4 word" where
  "lanes_valid = 0xF"

definition first_word :: "32 word \<Rightarrow> 4 word decoder_in" where
  "first_word d = quiet\<lparr>sink_valid := lanes_valid, sink_first := True, sink_data := d,
                        header_in_setup := True\<rparr>"

definition last_word :: "32 word \<Rightarrow> 4 word decoder_in" where
  "last_word d = quiet\<lparr>sink_valid := lanes_valid, sink_last := True, sink_data := d\<rparr>"

definition middle_word :: "32 word \<Rightarrow> 4 word decoder_in" where
  "middle_word d = quiet\<lparr>sink_valid := lanes_valid, sink_data := d\<rparr>"

definition good_verdict :: "4 word decoder_in" where
  "good_verdict = quiet\<lparr>rx_good := True\<rparr>"

definition bad_verdict :: "4 word decoder_in" where
  "bad_verdict = quiet\<lparr>rx_bad := True\<rparr>"

definition good_and_bad :: "4 word decoder_in" where
  "good_and_bad = quiet\<lparr>rx_good := True, rx_bad := True\<rparr>"


section \<open>SuperSpeedRequestHandlerInterface and its multiplexer\<close>

text \<open>
  Modelled from the spec: the declarations of \<^verbatim>\<open>SuperSpeedStreamInterface\<close> and of
  \<^verbatim>\<open>HandshakeGeneratorInterface\<close> are not part of the source. A stream carries, towards
  its consumer, the validity vector, the first and last markers and a data word. The
  outbound handshake channel carries the two triggers the multiplexer looks at,
  \<^verbatim>\<open>send_ack\<close> and \<^verbatim>\<open>send_stall\<close>, and the rest of its payload, which is a parameter
  here (\<open>handshake_fields\<close>, with reset value zero).
\<close>

record 'v stream =
  stream_valid :: 'v
  stream_first :: bool
  stream_last :: bool
  stream_data :: "32 word"

record 'p handshake_generator =
  send_ack :: bool
  send_stall :: bool
  handshake_fields :: 'p

text \<open>
  The signals of \<^verbatim>\<open>SuperSpeedRequestHandlerInterface\<close> that a handler drives and the
  multiplexer folds into the shared interface. The signals the multiplexer passes from the
  shared interface to every handler (the setup packet, the active configuration, the two
  request strobes, the receive stream and the inbound handshakes) are wired through without
  a condition and do not reach the shared outputs.
\<close>

record ('v, 'p) request_handler_interface =
  address_changed :: bool
  new_address :: "7 word"
  config_changed :: bool
  new_config :: "8 word"
  tx :: "'v stream"
  tx_length :: "11 word"
  tx_sequence_number :: "5 word"
  handshakes_out :: "'p handshake_generator"

text \<open>Every signal of an interface resets to zero; a combinational signal that no active
  statement drives has that value.\<close>

definition interface_reset :: "('n::len word, 'p::zero) request_handler_interface" where
  "interface_reset =
     \<lparr>address_changed = False, new_address = 0, config_changed = False, new_config = 0,
      tx = \<lparr>stream_valid = 0, stream_first = False, stream_last = False, stream_data = 0\<rparr>,
      tx_length = 0, tx_sequence_number = 0,
      handshakes_out = \<lparr>send_ack = False, send_stall = False, handshake_fields = 0\<rparr>\<rparr>"

text \<open>
  \<^verbatim>\<open>_multiplex_signals\<close> builds one \<^verbatim>\<open>If\<close>/\<^verbatim>\<open>Elif\<close> chain over the interfaces in
  registration order: the body of the first interface whose \<open>cond\<close> signal is high is the
  only one that is active. \<open>connect\<close> is the body: the assignments of the multiplexed
  signals of that interface to the shared ones.
\<close>

fun multiplex_signals :: "('i \<Rightarrow> bool) \<Rightarrow> ('i \<Rightarrow> 's \<Rightarrow> 's) \<Rightarrow> 'i list \<Rightarrow> 's \<Rightarrow> 's" where
  "multiplex_signals cond connect [] shared = shared"
| "multiplex_signals cond connect (interface # interfaces) shared =
     (if cond interface then connect interface shared
      else multiplex_signals cond connect interfaces shared)"

text \<open>
  The transmit and handshake groups use one independent \<^verbatim>\<open>If\<close> per interface, in
  registration order; among the active bodies the last assignment stands.
\<close>

definition connect_if :: "('i \<Rightarrow> bool) \<Rightarrow> ('i \<Rightarrow> 's \<Rightarrow> 's) \<Rightarrow> 's \<Rightarrow> 'i \<Rightarrow> 's" where
  "connect_if cond connect shared interface =
     (if cond interface then connect interface shared else shared)"

definition connect_address ::
  "('v, 'p) request_handler_interface \<Rightarrow> ('v, 'p) request_handler_interface
     \<Rightarrow> ('v, 'p) request_handler_interface" where
  "connect_address interface shared =
     shared\<lparr>address_changed := address_changed interface, new_address := new_address interface\<rparr>"

definition connect_config ::
  "('v, 'p) request_handler_interface \<Rightarrow> ('v, 'p) request_handler_interface
     \<Rightarrow> ('v, 'p) request_handler_interface" where
  "connect_config interface shared =
     shared\<lparr>config_changed := config_changed interface, new_config := new_config interface\<rparr>"

definition connect_tx ::
  "('v, 'p) request_handler_interface \<Rightarrow> ('v, 'p) request_handler_interface
     \<Rightarrow> ('v, 'p) request_handler_interface" where
  "connect_tx interface shared =
     shared\<lparr>tx := tx interface,
            tx_sequence_number := tx_sequence_number interface,
            tx_length := tx_length interface\<rparr>"

definition tx_valid_any :: "('n::len word, 'p) request_handler_interface \<Rightarrow> bool" where
  "tx_valid_any interface = any_bits (stream_valid (tx interface))"

definition any_generate_signal_asserted :: "('v, 'p) request_handler_interface \<Rightarrow> bool" where
  "any_generate_signal_asserted interface =
     (send_ack (handshakes_out interface) \<or> send_stall (handshakes_out interface))"

definition connect_handshakes_out ::
  "('v, 'p) request_handler_interface \<Rightarrow> ('v, 'p) request_handler_interface
     \<Rightarrow> ('v, 'p) request_handler_interface" where
  "connect_handshakes_out interface shared =
     shared\<lparr>handshakes_out := handshakes_out interface\<rparr>"

text \<open>The combinational logic of \<^verbatim>\<open>SuperSpeedRequestHandlerMultiplexer.elaborate\<close>:
  the shared outputs of one cycle as a function of the outputs of the registered handlers.\<close>

definition multiplexer_elaborate ::
  "('n::len word, 'p::zero) request_handler_interface list
     \<Rightarrow> ('n word, 'p) request_handler_interface" where
  "multiplexer_elaborate interfaces =
     (let shared = interface_reset;
          shared = multiplex_signals address_changed connect_address interfaces shared;
          shared = multiplex_signals config_changed connect_config interfaces shared;
          shared = foldl (connect_if tx_valid_any connect_tx) shared interfaces;
          shared = foldl (connect_if any_generate_signal_asserted connect_handshakes_out)
                     shared interfaces
      in shared)"

text \<open>Example handlers, on a stream of four byte lanes and with a number for the rest of
  the handshake payload.\<close>

definition handler :: "(4 word, nat) request_handler_interface" where
  "handler = interface_reset"

definition sets_both :: "7 word \<Rightarrow> 8 word \<Rightarrow> (4 word, nat) request_handler_interface" where
  "sets_both a c = handler\<lparr>address_changed := True, new_address := a,
                           config_changed := True, new_config := c\<rparr>"

definition silent :: "(4 word, nat) request_handler_interface" where
  "silent = handler\<lparr>new_address := 5, new_config := 9, tx_length := 64\<rparr>"

definition sends :: "32 word \<Rightarrow> 11 word \<Rightarrow> 5 word \<Rightarrow> (4 word, nat) request_handler_interface" where
  "sends d n q =
     handler\<lparr>tx := \<lparr>stream_valid = 0xF, stream_first = True, stream_last = True,
                     stream_data = d\<rparr>,
             tx_length := n, tx_sequence_number := q\<rparr>"

definition acks :: "nat \<Rightarrow> (4 word, nat) request_handler_interface" where
  "acks n = handler\<lparr>handshakes_out :=
     \<lparr>send_ack = True, send_stall = False, handshake_fields = n\<rparr>\<rparr>"

definition stalls :: "nat \<Rightarrow> (4 word, nat) request_handler_interface" where
  "stalls n = handler\<lparr>handshakes_out :=
     \<lparr>send_ack = False, send_stall = True, handshake_fields = n\<rparr>\<rparr>"


section \<open>StallOnlyRequestHandler\<close>

datatype error = AttributeError string

text \<open>
  Modelled from the spec: the declaration of \<^verbatim>\<open>HandshakeGeneratorInterface\<close> is not part
  of the source. It is a record whose fields are reached by name. The source names its two
  triggers, \<^verbatim>\<open>send_ack\<close> and \<^verbatim>\<open>send_stall\<close> (the acknowledge and reject requests of the
  spec); the names of its remaining fields are a parameter. Reading a name that is not a
  field raises \<^verbatim>\<open>AttributeError\<close>.
\<close>

definition handshake_generator_layout :: "string list \<Rightarrow> string list" where
  "handshake_generator_layout others = ''send_ack'' # ''send_stall'' # others"

definition record_getattr :: "string list \<Rightarrow> string \<Rightarrow> error + string" where
  "record_getattr layout name =
     (if name \<in> set layout then Inr name else Inl (AttributeError name))"

text \<open>The signals of its interface that the handler reads in one cycle; \<open>rx_valid\<close> is the
  validity vector of the receive stream, one bit per byte lane.\<close>

record 'v stall_handler_in =
  interface_setup :: setup_packet
  data_requested :: bool
  status_requested :: bool
  rx_valid :: 'v

text \<open>
  Modelled from the spec: the helper \<^verbatim>\<open>falling_edge_detected\<close> (module \<^verbatim>\<open>utils\<close>) is not
  part of the source. It detects a falling-edge transition of the signal it is given: it
  keeps the value the signal had in the cycle before in a register of the \<^verbatim>\<open>ss\<close> domain
  and is high when that register is high and the signal is low. The register and the
  result are one bit wide, and an assignment of a wider value keeps its low bits: of the
  lane vector \<^verbatim>\<open>rx.valid\<close> the detector follows lane 0 alone.
\<close>

record stall_handler =
  rx_valid_delayed :: bool

definition stall_handler_reset :: stall_handler where
  "stall_handler_reset = \<lparr>rx_valid_delayed = False\<rparr>"

definition falling_edge_detected :: "stall_handler \<Rightarrow> 'n::len word \<Rightarrow> bool" where
  "falling_edge_detected r signal \<longleftrightarrow> rx_valid_delayed r \<and> \<not> bit signal 0"

definition stall_handler_step ::
  "stall_handler \<Rightarrow> 'n::len word stall_handler_in \<Rightarrow> stall_handler" where
  "stall_handler_step r i = r\<lparr>rx_valid_delayed := bit (rx_valid i) 0\<rparr>"

text \<open>The two nested \<^verbatim>\<open>If\<close>s of \<^verbatim>\<open>StallOnlyRequestHandler.elaborate\<close>: the value they
  give, in one cycle, to the signal they drive, which is combinational and low unless
  driven.\<close>

definition stall_logic ::
  "(setup_packet \<Rightarrow> bool) \<Rightarrow> stall_handler \<Rightarrow> 'n::len word stall_handler_in \<Rightarrow> bool" where
  "stall_logic condition r i =
     (let data_received = falling_edge_detected r (rx_valid i);
          stall = False;
          stall = (if data_requested i \<or> status_requested i \<or> data_received
                   then (if condition (interface_setup i) then True else stall)
                   else stall)
      in stall)"

text \<open>
  \<^verbatim>\<open>StallOnlyRequestHandler.elaborate\<close>. The signal it drives is the field \<^verbatim>\<open>stall\<close> of
  \<^verbatim>\<open>handshakes_out\<close>, read by name while the module is built: when the record has no such
  field the call raises and there is no module; otherwise the result is the logic above.
\<close>

definition stall_only_elaborate ::
  "string list \<Rightarrow> (setup_packet \<Rightarrow> bool)
     \<Rightarrow> error + (stall_handler \<Rightarrow> 'n::len word stall_handler_in \<Rightarrow> bool)" where
  "stall_only_elaborate others condition =
     (case record_getattr (handshake_generator_layout others) ''stall'' of
        Inl e \<Rightarrow> Inl e
      | Inr stall \<Rightarrow> Inr (stall_logic condition))"

text \<open>An example predicate: the request is GET_DESCRIPTOR.\<close>

definition is_get_descriptor :: "setup_packet \<Rightarrow> bool" where
  "is_get_descriptor p \<longleftrightarrow> setup_request p = 6"


section \<open>Properties of the decoder\<close>

subsection \<open>Bit-level facts\<close>

lemma received_received_eq: "received (received_eq b p) = b"
  by (simp add: received_def received_eq_def bit_simps)

lemma setup_fields_received_eq: "setup_fields (received_eq b p) = setup_fields p"
  unfolding setup_fields_def received_eq_def
  by (rule bit_word_eqI) (auto simp add: bit_simps)

lemma setup_fields_two_words:
  "setup_fields (word_select_eq 1 b (word_select_eq 0 a p)) = word_cat b a"
  unfolding setup_fields_def
  by (rule bit_word_eqI)
    (auto simp add: word_select_eq_def bit_simps dest: bit_imp_le_length)

subsection \<open>One cycle\<close>

lemma step_received:
  "received (packet (decoder_step s i)) \<longleftrightarrow> fsm s = WAIT_FOR_VALID \<and> rx_good i"
  by (cases "fsm s") (simp_all add: decoder_step_def Let_def received_received_eq)

lemma step_fields_frame:
  "\<not> (fsm s = WAIT_FOR_VALID \<and> rx_good i) \<Longrightarrow>
     setup_fields (packet (decoder_step s i)) = setup_fields (packet s)"
  by (cases "fsm s") (auto simp add: decoder_step_def Let_def setup_fields_received_eq)

lemma step_publish:
  "fsm s = WAIT_FOR_VALID \<Longrightarrow> rx_good i \<Longrightarrow>
     packet (decoder_step s i) = received_eq True (local_packet s) \<and>
     fsm (decoder_step s i) = WAIT_FOR_FIRST"
  by (simp add: decoder_step_def Let_def)

lemma step_from_first:
  "fsm s = WAIT_FOR_FIRST \<Longrightarrow>
     fsm (decoder_step s i) =
       (if all_bits (sink_valid i) \<and> sink_first i \<and> header_in_setup i
        then PARSE_SECOND else WAIT_FOR_FIRST)"
  by (simp add: decoder_step_def Let_def)

lemma step_waiting:
  "fsm s = WAIT_FOR_VALID \<Longrightarrow> \<not> rx_good i \<Longrightarrow> \<not> rx_bad i \<Longrightarrow>
     fsm (decoder_step s i) = WAIT_FOR_VALID \<and>
     local_packet (decoder_step s i) = local_packet s"
  by (simp add: decoder_step_def Let_def)

lemma run_waiting:
  "fsm s = WAIT_FOR_VALID \<Longrightarrow> \<forall>w \<in> set ws. \<not> rx_good w \<and> \<not> rx_bad w \<Longrightarrow>
     fsm (decoder_run s ws) = WAIT_FOR_VALID \<and>
     local_packet (decoder_run s ws) = local_packet s"
proof (induction ws arbitrary: s)
  case Nil
  then show ?case by simp
next
  case (Cons w ws)
  from Cons.prems have quiet_w: "\<not> rx_good w" "\<not> rx_bad w"
    and rest: "\<forall>v \<in> set ws. \<not> rx_good v \<and> \<not> rx_bad v"
    by simp_all
  from step_waiting [OF Cons.prems(1) quiet_w]
  have kept: "fsm (decoder_step s w) = WAIT_FOR_VALID"
    "local_packet (decoder_step s w) = local_packet s"
    by simp_all
  from Cons.IH [OF kept(1) rest] kept(2) show ?case by simp
qed

lemma run_snoc: "decoder_run s (ws @ [w]) = decoder_step (decoder_run s ws) w"
  by (induction ws arbitrary: s) simp_all

lemma run_append: "decoder_run s (vs @ ws) = decoder_run (decoder_run s vs) ws"
  by (induction vs arbitrary: s) simp_all

lemma second_word_reaches_verdict:
  assumes "fsm s = WAIT_FOR_FIRST"
    and "all_bits (sink_valid i0)" "sink_first i0" "header_in_setup i0"
    and "all_bits (sink_valid i1)" "sink_last i1"
  shows "fsm (decoder_run s [i0, i1]) = (if rx_bad i1 then WAIT_FOR_FIRST else WAIT_FOR_VALID)"
  using assms by (simp add: decoder_step_def Let_def)

lemmas stimuli =
  quiet_def lanes_valid_def first_word_def last_word_def middle_word_def
  good_verdict_def bad_verdict_def good_and_bad_def

lemmas decoder_eval =
  decoder_step_def decoder_reset_def Let_def all_bits_def stimuli
  received_eq_def received_def setup_fields_def word_select_eq_def
  set_bit_eq_or unset_bit_eq_and_not mask_eq_exp_minus_1

subsection \<open>A decoded packet is published one cycle after the good verdict\<close>

text \<open>
  C1. The decoder is in \<open>WAIT_FOR_FIRST\<close> and sees a cycle with the stream valid, marked
  first, and the setup flag of the header set (word 0 is \<open>sink_data i0\<close>), then a cycle with
  the stream valid and marked last (word 1 is \<open>sink_data i1\<close>) and without \<open>rx_bad\<close>.
  Then it is in \<open>WAIT_FOR_VALID\<close>; it stays there for any number of cycles \<open>ws\<close> without
  a verdict, and sees \<open>rx_good\<close> in cycle \<open>g\<close>. One cycle after \<open>g\<close> the fields of the output packet
  are word 0 in the low half and word 1 in the high half, and \<open>received\<close> is high; it is low
  in the cycle of the verdict itself and low again one cycle later, whatever the input \<open>j\<close>
  of that cycle.
\<close>

theorem setup_decode_publishes:
  assumes start: "fsm s = WAIT_FOR_FIRST"
    and w0: "all_bits (sink_valid i0)" "sink_first i0" "header_in_setup i0"
    and w1: "all_bits (sink_valid i1)" "sink_last i1"
    and no_abort: "\<not> rx_bad i1"
    and waiting: "\<forall>w \<in> set ws. \<not> rx_good w \<and> \<not> rx_bad w"
    and verdict: "rx_good g"
  shows "fsm (decoder_run s [i0, i1]) = WAIT_FOR_VALID \<and>
         fsm (decoder_run s ([i0, i1] @ ws)) = WAIT_FOR_VALID \<and>
         \<not> received (packet (decoder_run s ([i0, i1] @ ws))) \<and>
         setup_fields (packet (decoder_run s ([i0, i1] @ ws @ [g])))
           = word_cat (sink_data i1) (sink_data i0) \<and>
         received (packet (decoder_run s ([i0, i1] @ ws @ [g]))) \<and>
         \<not> received (packet (decoder_run s ([i0, i1] @ ws @ [g, j])))"
proof -
  define s1 where "s1 = decoder_step s i0"
  define s2 where "s2 = decoder_step s1 i1"
  define s3 where "s3 = decoder_run s2 ws"
  define s4 where "s4 = decoder_step s3 g"
  have s1: "fsm s1 = PARSE_SECOND"
    "local_packet s1 = word_select_eq 0 (sink_data i0) (local_packet s)"
    using start w0 by (simp_all add: s1_def decoder_step_def Let_def)
  have s2_fsm: "fsm s2 = WAIT_FOR_VALID"
    using s1(1) w1 no_abort by (simp add: s2_def decoder_step_def Let_def)
  have s2_buf: "local_packet s2 = word_select_eq 1 (sink_data i1) (local_packet s1)"
    using s1(1) w1 by (simp add: s2_def decoder_step_def Let_def)
  have s2_low: "\<not> received (packet s2)"
    using s1(1) by (simp add: s2_def step_received)
  have s3: "fsm s3 = WAIT_FOR_VALID" "local_packet s3 = local_packet s2"
    using run_waiting [OF s2_fsm waiting] by (simp_all add: s3_def)
  have s3_low: "\<not> received (packet s3)"
  proof (cases ws rule: rev_cases)
    case Nil
    with s2_low show ?thesis by (simp add: s3_def)
  next
    case (snoc vs v)
    with waiting have "\<not> rx_good v" by simp
    with snoc show ?thesis by (simp add: s3_def run_snoc step_received)
  qed
  have s4: "packet s4 = received_eq True (local_packet s3)" "fsm s4 = WAIT_FOR_FIRST"
    using step_publish [OF s3(1) verdict] by (simp_all add: s4_def)
  have s4_fields: "setup_fields (packet s4) = word_cat (sink_data i1) (sink_data i0)"
    unfolding s4(1) s3(2) s2_buf s1(2) setup_fields_received_eq
    by (rule setup_fields_two_words)
  have s4_high: "received (packet s4)"
    by (simp add: s4(1) received_received_eq)
  have s5_low: "\<not> received (packet (decoder_step s4 j))"
    by (simp add: step_received s4(2))
  have unfold2: "decoder_run s [i0, i1] = s2"
    by (simp add: s2_def s1_def)
  have unfold3: "decoder_run s ([i0, i1] @ ws) = s3"
    by (simp add: s3_def s2_def s1_def)
  have unfold4: "decoder_run s ([i0, i1] @ ws @ [g]) = s4"
    by (simp add: run_append s4_def s3_def s2_def s1_def)
  have unfold5: "decoder_run s ([i0, i1] @ ws @ [g, j]) = decoder_step s4 j"
    by (simp add: run_append s4_def s3_def s2_def s1_def)
  show ?thesis
    unfolding unfold2 unfold3 unfold4 unfold5
    using s2_fsm s3(1) s3_low s4_fields s4_high s5_low by simp
qed

theorem setup_decode_publishes_witness:
  "fsm decoder_reset = WAIT_FOR_FIRST \<and>
   \<not> rx_bad (last_word 0x00120000) \<and>
   fsm (decoder_run decoder_reset [first_word 0x01000680, last_word 0x00120000])
     = WAIT_FOR_VALID \<and>
   \<not> received (packet (decoder_run decoder_reset
       [first_word 0x01000680, last_word 0x00120000, quiet])) \<and>
   setup_fields (packet (decoder_run decoder_reset
       [first_word 0x01000680, last_word 0x00120000, quiet, good_verdict]))
     = 0x0012000001000680 \<and>
   received (packet (decoder_run decoder_reset
       [first_word 0x01000680, last_word 0x00120000, quiet, good_verdict])) \<and>
   \<not> received (packet (decoder_run decoder_reset
       [first_word 0x01000680, last_word 0x00120000, quiet, good_verdict, quiet]))"
proof -
  have start: "fsm decoder_reset = WAIT_FOR_FIRST"
    by (simp add: decoder_reset_def)
  have w0: "all_bits (sink_valid (first_word 0x01000680))"
    "sink_first (first_word 0x01000680)" "header_in_setup (first_word 0x01000680)"
    by (simp_all add: all_bits_def stimuli)
  have w1: "all_bits (sink_valid (last_word 0x00120000))" "sink_last (last_word 0x00120000)"
    by (simp_all add: all_bits_def stimuli)
  have no_abort: "\<not> rx_bad (last_word 0x00120000)"
    by (simp add: stimuli)
  have waiting: "\<forall>w \<in> set [quiet]. \<not> rx_good w \<and> \<not> rx_bad w"
    by (simp add: quiet_def)
  have verdict: "rx_good good_verdict"
    by (simp add: stimuli)
  have cat: "(word_cat (0x00120000 :: 32 word) (0x01000680 :: 32 word) :: 64 word)
      = 0x0012000001000680"
    by (simp add: word_cat_eq)
  from setup_decode_publishes [OF start w0 w1 no_abort waiting verdict, of quiet]
  show ?thesis
    using start no_abort by (simp add: stimuli cat)
qed

subsection \<open>Simultaneous verdicts\<close>

text \<open>
  C8. When \<open>rx_good\<close> and \<open>rx_bad\<close> are asserted in the same cycle while the decoder is in
  \<open>WAIT_FOR_VALID\<close>, the captured packet is published all the same: the output packet takes
  the fields of the local packet, \<open>received\<close> is high in the following cycle (and low in the
  one after it), and the decoder is back in \<open>WAIT_FOR_FIRST\<close>.
\<close>

theorem good_and_bad_publishes:
  assumes "fsm s = WAIT_FOR_VALID" and "rx_good i" and "rx_bad i"
  shows "setup_fields (packet (decoder_step s i)) = setup_fields (local_packet s) \<and>
         received (packet (decoder_step s i)) \<and>
         fsm (decoder_step s i) = WAIT_FOR_FIRST \<and>
         \<not> received (packet (decoder_step (decoder_step s i) j))"
proof -
  from step_publish [OF assms(1,2)]
  have pub: "packet (decoder_step s i) = received_eq True (local_packet s)"
    and returned: "fsm (decoder_step s i) = WAIT_FOR_FIRST"
    by simp_all
  from pub returned show ?thesis
    by (simp add: setup_fields_received_eq received_received_eq step_received)
qed

theorem good_and_bad_publishes_witness:
  "fsm (decoder_run decoder_reset [first_word 0x01000680, last_word 0x00120000])
     = WAIT_FOR_VALID \<and>
   rx_good good_and_bad \<and> rx_bad good_and_bad \<and>
   setup_fields (packet (decoder_run decoder_reset
       [first_word 0x01000680, last_word 0x00120000, good_and_bad])) = 0x0012000001000680 \<and>
   received (packet (decoder_run decoder_reset
       [first_word 0x01000680, last_word 0x00120000, good_and_bad])) \<and>
   fsm (decoder_run decoder_reset
       [first_word 0x01000680, last_word 0x00120000, good_and_bad]) = WAIT_FOR_FIRST"
proof -
  define s where "s = decoder_run decoder_reset [first_word 0x01000680, last_word 0x00120000]"
  have st: "fsm s = WAIT_FOR_VALID"
    by (simp add: s_def decoder_eval)
  have buf: "setup_fields (local_packet s) = 0x0012000001000680"
    by (simp add: s_def decoder_eval)
  have good: "rx_good good_and_bad" and bad: "rx_bad good_and_bad"
    by (simp_all add: stimuli)
  have run: "decoder_run decoder_reset
      [first_word 0x01000680, last_word 0x00120000, good_and_bad] = decoder_step s good_and_bad"
    by (simp add: s_def)
  from good_and_bad_publishes [OF st good bad, of quiet] st good bad buf run
  show ?thesis
    by (simp add: s_def)
qed

subsection \<open>The published fields only change on a good verdict\<close>

text \<open>
  C10. In a cycle in which the decoder is not in \<open>WAIT_FOR_VALID\<close> with \<open>rx_good\<close>
  asserted, every field of the output packet other than \<open>received\<close> keeps its value; the
  words captured in \<open>WAIT_FOR_FIRST\<close> and \<open>PARSE_SECOND\<close> go to the local packet only.
\<close>

theorem published_fields_unchanged:
  assumes "\<not> (fsm s = WAIT_FOR_VALID \<and> rx_good i)"
  shows "setup_fields (packet (decoder_step s i)) = setup_fields (packet s) \<and>
         setup_request_type (packet (decoder_step s i)) = setup_request_type (packet s) \<and>
         setup_request (packet (decoder_step s i)) = setup_request (packet s) \<and>
         setup_value (packet (decoder_step s i)) = setup_value (packet s) \<and>
         setup_index (packet (decoder_step s i)) = setup_index (packet s) \<and>
         setup_length (packet (decoder_step s i)) = setup_length (packet s)"
proof -
  from step_fields_frame [OF assms]
  have same: "setup_fields (packet (decoder_step s i)) = setup_fields (packet s)" .
  then show ?thesis
    by (simp add: setup_request_type_def setup_request_def setup_value_def
        setup_index_def setup_length_def)
qed

theorem published_fields_unchanged_witness:
  "\<not> (fsm (decoder_run decoder_reset
          [first_word 0x01000680, last_word 0x00120000, good_verdict]) = WAIT_FOR_VALID \<and>
       rx_good (first_word 0xFFFFFFFF)) \<and>
   setup_fields (packet (decoder_run decoder_reset
       [first_word 0x01000680, last_word 0x00120000, good_verdict])) = 0x0012000001000680 \<and>
   setup_fields (packet (decoder_run decoder_reset
       [first_word 0x01000680, last_word 0x00120000, good_verdict, first_word 0xFFFFFFFF]))
     = 0x0012000001000680 \<and>
   setup_fields (local_packet (decoder_run decoder_reset
       [first_word 0x01000680, last_word 0x00120000, good_verdict, first_word 0xFFFFFFFF]))
     = 0x00120000FFFFFFFF"
proof -
  define s where "s = decoder_run decoder_reset
      [first_word 0x01000680, last_word 0x00120000, good_verdict]"
  have st: "fsm s = WAIT_FOR_FIRST"
    by (simp add: s_def decoder_eval)
  then have hyp: "\<not> (fsm s = WAIT_FOR_VALID \<and> rx_good (first_word 0xFFFFFFFF))"
    by simp
  have out: "setup_fields (packet s) = 0x0012000001000680"
    by (simp add: s_def decoder_eval)
  have buf: "setup_fields (local_packet (decoder_step s (first_word 0xFFFFFFFF)))
      = 0x00120000FFFFFFFF"
    by (simp add: s_def decoder_eval)
  have run: "decoder_run decoder_reset
      [first_word 0x01000680, last_word 0x00120000, good_verdict, first_word 0xFFFFFFFF]
      = decoder_step s (first_word 0xFFFFFFFF)"
    by (simp add: s_def)
  from published_fields_unchanged [OF hyp] hyp out buf
  show ?thesis
    unfolding run by (simp add: s_def)
qed

subsection \<open>Discarded packets\<close>

text \<open>
  C2, as the code has it. When \<open>rx_bad\<close> is asserted in a cycle that is not a cycle of
  \<open>WAIT_FOR_VALID\<close> with \<open>rx_good\<close> asserted as well, or when a valid word that is not
  marked last arrives in \<open>PARSE_SECOND\<close>, nothing is published: the fields of the output
  packet keep their values and \<open>received\<close> is low in the following cycle. The decoder is
  then in \<open>WAIT_FOR_FIRST\<close>, with one exception: \<open>WAIT_FOR_FIRST\<close> does not look at
  \<open>rx_bad\<close>, so a valid first word of a setup transaction in that same cycle still moves
  it to \<open>PARSE_SECOND\<close>.
\<close>

theorem bad_verdict_discards:
  assumes "(rx_bad i \<and> \<not> (fsm s = WAIT_FOR_VALID \<and> rx_good i)) \<or>
           (fsm s = PARSE_SECOND \<and> all_bits (sink_valid i) \<and> \<not> sink_last i)"
  shows "setup_fields (packet (decoder_step s i)) = setup_fields (packet s) \<and>
         \<not> received (packet (decoder_step s i)) \<and>
         fsm (decoder_step s i) =
           (if fsm s = WAIT_FOR_FIRST \<and>
               all_bits (sink_valid i) \<and> sink_first i \<and> header_in_setup i
            then PARSE_SECOND else WAIT_FOR_FIRST)"
proof -
  from assms have no_pub: "\<not> (fsm s = WAIT_FOR_VALID \<and> rx_good i)"
    by auto
  have fields: "setup_fields (packet (decoder_step s i)) = setup_fields (packet s)"
    by (rule step_fields_frame [OF no_pub])
  have low: "\<not> received (packet (decoder_step s i))"
    using no_pub by (simp add: step_received)
  have nxt: "fsm (decoder_step s i) =
      (if fsm s = WAIT_FOR_FIRST \<and>
          all_bits (sink_valid i) \<and> sink_first i \<and> header_in_setup i
       then PARSE_SECOND else WAIT_FOR_FIRST)"
  proof (cases "fsm s")
    case WAIT_FOR_FIRST
    then show ?thesis by (simp add: step_from_first)
  next
    case PARSE_SECOND
    with assms show ?thesis by (auto simp add: decoder_step_def Let_def)
  next
    case WAIT_FOR_VALID
    with assms show ?thesis by (auto simp add: decoder_step_def Let_def)
  qed
  from fields low nxt show ?thesis by simp
qed

theorem bad_verdict_discards_witness:
  "(rx_bad bad_verdict \<and>
      \<not> (fsm (decoder_run decoder_reset [first_word 0x01000680, last_word 0x00120000])
            = WAIT_FOR_VALID \<and> rx_good bad_verdict)) \<and>
   setup_fields (packet (decoder_run decoder_reset
       [first_word 0x01000680, last_word 0x00120000, bad_verdict])) = 0 \<and>
   \<not> received (packet (decoder_run decoder_reset
       [first_word 0x01000680, last_word 0x00120000, bad_verdict])) \<and>
   fsm (decoder_run decoder_reset
       [first_word 0x01000680, last_word 0x00120000, bad_verdict]) = WAIT_FOR_FIRST \<and>
   (fsm (decoder_run decoder_reset [first_word 0x01000680]) = PARSE_SECOND \<and>
      all_bits (sink_valid (middle_word 0x00120000)) \<and>
      \<not> sink_last (middle_word 0x00120000)) \<and>
   fsm (decoder_run decoder_reset [first_word 0x01000680, middle_word 0x00120000])
     = WAIT_FOR_FIRST"
proof -
  define s where "s = decoder_run decoder_reset [first_word 0x01000680, last_word 0x00120000]"
  define t where "t = decoder_run decoder_reset [first_word 0x01000680]"
  have s_fsm: "fsm s = WAIT_FOR_VALID" and s_out: "setup_fields (packet s) = 0"
    by (simp_all add: s_def decoder_eval)
  have t_fsm: "fsm t = PARSE_SECOND"
    by (simp add: t_def decoder_eval)
  have inp: "rx_bad bad_verdict" "\<not> rx_good bad_verdict"
    "all_bits (sink_valid (middle_word 0x00120000))" "\<not> sink_last (middle_word 0x00120000)"
    by (simp_all add: all_bits_def stimuli)
  have hyp1: "(rx_bad bad_verdict \<and> \<not> (fsm s = WAIT_FOR_VALID \<and> rx_good bad_verdict)) \<or>
      (fsm s = PARSE_SECOND \<and> all_bits (sink_valid bad_verdict) \<and> \<not> sink_last bad_verdict)"
    using inp by simp
  have hyp2: "(rx_bad (middle_word 0x00120000) \<and>
        \<not> (fsm t = WAIT_FOR_VALID \<and> rx_good (middle_word 0x00120000))) \<or>
      (fsm t = PARSE_SECOND \<and> all_bits (sink_valid (middle_word 0x00120000)) \<and>
        \<not> sink_last (middle_word 0x00120000))"
    using inp t_fsm by simp
  have run1: "decoder_run decoder_reset
      [first_word 0x01000680, last_word 0x00120000, bad_verdict] = decoder_step s bad_verdict"
    by (simp add: s_def)
  have run2: "decoder_run decoder_reset [first_word 0x01000680, middle_word 0x00120000]
      = decoder_step t (middle_word 0x00120000)"
    by (simp add: t_def)
  from bad_verdict_discards [OF hyp1] bad_verdict_discards [OF hyp2] s_fsm s_out t_fsm inp
  show ?thesis
    unfolding run1 run2 by (simp add: s_def t_def)
qed

text \<open>
  C2 as stated fails in two places. In \<open>WAIT_FOR_FIRST\<close> a cycle with \<open>rx_bad\<close> and a valid
  first setup word leaves the decoder in \<open>PARSE_SECOND\<close>; in \<open>WAIT_FOR_VALID\<close> a cycle with
  \<open>rx_bad\<close> and \<open>rx_good\<close> publishes the packet.
\<close>

theorem bad_verdict_counterexample:
  "rx_bad ((first_word 0x01000680)\<lparr>rx_bad := True\<rparr>) \<and>
   fsm decoder_reset = WAIT_FOR_FIRST \<and>
   fsm (decoder_step decoder_reset ((first_word 0x01000680)\<lparr>rx_bad := True\<rparr>)) = PARSE_SECOND \<and>
   rx_bad good_and_bad \<and>
   fsm (decoder_run decoder_reset [first_word 0x01000680, last_word 0x00120000])
     = WAIT_FOR_VALID \<and>
   setup_fields (packet (decoder_run decoder_reset
       [first_word 0x01000680, last_word 0x00120000])) = 0 \<and>
   setup_fields (packet (decoder_run decoder_reset
       [first_word 0x01000680, last_word 0x00120000, good_and_bad])) = 0x0012000001000680 \<and>
   received (packet (decoder_run decoder_reset
       [first_word 0x01000680, last_word 0x00120000, good_and_bad]))"
  by (simp add: decoder_eval)

subsection \<open>The received strobe\<close>

text \<open>
  In every state the decoder reaches from reset: \<open>received\<close> is low after reset; when it
  is high, \<open>rx_good\<close> was asserted in the cycle before while the decoder was in
  \<open>WAIT_FOR_VALID\<close>; and it is low again in the next cycle, whatever that cycle's input.
\<close>

lemma received_follows_good:
  shows "\<not> received (packet decoder_reset)"
    and "received (packet (decoder_run decoder_reset (ws @ [i]))) \<Longrightarrow>
           fsm (decoder_run decoder_reset ws) = WAIT_FOR_VALID \<and> rx_good i"
    and "received (packet (decoder_run decoder_reset (ws @ [i]))) \<Longrightarrow>
           \<not> received (packet (decoder_run decoder_reset (ws @ [i, j])))"
proof -
  define s where "s = decoder_run decoder_reset ws"
  have one: "decoder_run decoder_reset (ws @ [i]) = decoder_step s i"
    by (simp add: s_def run_snoc)
  have two: "decoder_run decoder_reset (ws @ [i, j]) = decoder_step (decoder_step s i) j"
    by (simp add: s_def run_append)
  show "\<not> received (packet decoder_reset)"
    by (simp add: decoder_reset_def received_def)
  show good: "fsm (decoder_run decoder_reset ws) = WAIT_FOR_VALID \<and> rx_good i"
    if "received (packet (decoder_run decoder_reset (ws @ [i])))"
    using that unfolding one s_def [symmetric] by (simp add: step_received)
  show "\<not> received (packet (decoder_run decoder_reset (ws @ [i, j])))"
    if high: "received (packet (decoder_run decoder_reset (ws @ [i])))"
  proof -
    from good [OF high] have "fsm s = WAIT_FOR_VALID" "rx_good i"
      by (simp_all add: s_def)
    from step_publish [OF this] have "fsm (decoder_step s i) = WAIT_FOR_FIRST" by simp
    then show ?thesis
      unfolding two by (simp add: step_received)
  qed
qed

text \<open>
  C3. The strobe is asked never to be asserted for a packet that failed. \<open>rx_bad\<close> says
  that the packet failed its checks, and the comment of its branch in \<open>WAIT_FOR_VALID\<close>
  says that the packet is ignored; in \<open>PARSE_SECOND\<close> \<open>rx_bad\<close> does override the stream.
  In \<open>WAIT_FOR_VALID\<close> it does not override \<open>rx_good\<close>: for the packet below, whose
  verdict cycle carries \<open>rx_bad\<close> together with \<open>rx_good\<close>, the decoder publishes the
  fields and asserts \<open>received\<close>.
\<close>

theorem failed_packet_is_strobed:
  "fsm (decoder_run decoder_reset [first_word 0x01000680, last_word 0x00120000])
     = WAIT_FOR_VALID \<and>
   rx_bad good_and_bad \<and>
   received (packet (decoder_run decoder_reset
       [first_word 0x01000680, last_word 0x00120000, good_and_bad])) \<and>
   setup_fields (packet (decoder_run decoder_reset
       [first_word 0x01000680, last_word 0x00120000, good_and_bad])) = 0x0012000001000680"
  by (simp add: decoder_eval)


section \<open>Properties of the multiplexer\<close>

subsection \<open>The two arbitration schemes\<close>

lemma multiplex_signals_first:
  "i < length xs \<Longrightarrow> c (xs ! i) \<Longrightarrow> \<forall>k<i. \<not> c (xs ! k) \<Longrightarrow>
     multiplex_signals c d xs sh = d (xs ! i) sh"
proof (induction xs arbitrary: i)
  case Nil
  then show ?case by simp
next
  case (Cons x xs)
  show ?case
  proof (cases i)
    case 0
    with Cons.prems show ?thesis by simp
  next
    case (Suc n)
    with Cons.prems have skip: "\<not> c x" by auto
    from Suc Cons.prems have "n < length xs" "c (xs ! n)" by simp_all
    moreover have "\<forall>k<n. \<not> c (xs ! k)"
    proof (intro allI impI)
      fix k assume "k < n"
      with Suc have "Suc k < i" by simp
      with Cons.prems(3) have "\<not> c ((x # xs) ! Suc k)" by blast
      then show "\<not> c (xs ! k)" by simp
    qed
    ultimately have "multiplex_signals c d xs sh = d (xs ! n) sh"
      by (rule Cons.IH)
    with skip Suc show ?thesis by simp
  qed
qed

lemma multiplex_signals_none:
  "\<forall>x \<in> set xs. \<not> c x \<Longrightarrow> multiplex_signals c d xs sh = sh"
  by (induction xs) simp_all

lemma multiplex_signals_frame:
  assumes "\<And>x sh. g (d x sh) = g sh"
  shows "g (multiplex_signals c d xs sh) = g sh"
  by (induction xs) (simp_all add: assms)

lemma foldl_connect_none:
  "\<forall>x \<in> set xs. \<not> c x \<Longrightarrow> foldl (connect_if c d) sh xs = sh"
  by (induction xs arbitrary: sh) (simp_all add: connect_if_def)

lemma foldl_connect_frame:
  assumes "\<And>x sh. g (d x sh) = g sh"
  shows "g (foldl (connect_if c d) sh xs) = g sh"
  by (induction xs arbitrary: sh) (simp_all add: connect_if_def assms)

lemma foldl_connect_last:
  assumes j: "j < length xs" and on: "c (xs ! j)"
    and later: "\<forall>k. j < k \<and> k < length xs \<longrightarrow> \<not> c (xs ! k)"
  shows "foldl (connect_if c d) sh xs = d (xs ! j) (foldl (connect_if c d) sh (take j xs))"
proof -
  have split: "xs = take j xs @ xs ! j # drop (Suc j) xs"
    using j by (rule id_take_nth_drop)
  have "\<forall>x \<in> set (drop (Suc j) xs). \<not> c x"
  proof
    fix x assume "x \<in> set (drop (Suc j) xs)"
    then obtain m where m: "m < length (drop (Suc j) xs)" "x = drop (Suc j) xs ! m"
      by (auto simp add: in_set_conv_nth)
    then have "x = xs ! (Suc j + m)" "Suc j + m < length xs" by simp_all
    with later show "\<not> c x" by simp
  qed
  then have rest: "\<And>t. foldl (connect_if c d) t (drop (Suc j) xs) = t"
    by (rule foldl_connect_none)
  have "foldl (connect_if c d) sh xs
      = foldl (connect_if c d) sh (take j xs @ xs ! j # drop (Suc j) xs)"
    using split by simp
  also have "\<dots> = connect_if c d (foldl (connect_if c d) sh (take j xs)) (xs ! j)"
    by (simp add: rest)
  also have "\<dots> = d (xs ! j) (foldl (connect_if c d) sh (take j xs))"
    using on by (simp add: connect_if_def)
  finally show ?thesis .
qed

lemmas connects =
  connect_address_def connect_config_def connect_tx_def connect_handshakes_out_def

lemmas handlers =
  handler_def interface_reset_def sets_both_def sends_def acks_def stalls_def

lemma address_group_first:
  assumes "i < length xs" "address_changed (xs ! i)" "\<forall>k<i. \<not> address_changed (xs ! k)"
  shows "address_changed (multiplexer_elaborate xs) = address_changed (xs ! i)"
    and "new_address (multiplexer_elaborate xs) = new_address (xs ! i)"
  by (simp_all add: multiplexer_elaborate_def Let_def foldl_connect_frame
      multiplex_signals_frame multiplex_signals_first [OF assms] connects)

lemma config_group_first:
  assumes "i < length xs" "config_changed (xs ! i)" "\<forall>k<i. \<not> config_changed (xs ! k)"
  shows "config_changed (multiplexer_elaborate xs) = config_changed (xs ! i)"
    and "new_config (multiplexer_elaborate xs) = new_config (xs ! i)"
  by (simp_all add: multiplexer_elaborate_def Let_def foldl_connect_frame
      multiplex_signals_first [OF assms] connects)

lemma tx_group_last:
  assumes "j < length xs" "tx_valid_any (xs ! j)"
    "\<forall>k. j < k \<and> k < length xs \<longrightarrow> \<not> tx_valid_any (xs ! k)"
  shows "tx (multiplexer_elaborate xs) = tx (xs ! j)"
    and "tx_length (multiplexer_elaborate xs) = tx_length (xs ! j)"
    and "tx_sequence_number (multiplexer_elaborate xs) = tx_sequence_number (xs ! j)"
  by (simp_all add: multiplexer_elaborate_def Let_def foldl_connect_frame
      foldl_connect_last [OF assms] connects)

lemma handshake_group_last:
  assumes "j < length xs" "any_generate_signal_asserted (xs ! j)"
    "\<forall>k. j < k \<and> k < length xs \<longrightarrow> \<not> any_generate_signal_asserted (xs ! k)"
  shows "handshakes_out (multiplexer_elaborate xs) = handshakes_out (xs ! j)"
  by (simp add: multiplexer_elaborate_def Let_def foldl_connect_last [OF assms] connects)

lemma address_group_none:
  assumes "\<forall>x \<in> set xs. \<not> address_changed x"
  shows "\<not> address_changed (multiplexer_elaborate xs)"
    and "new_address (multiplexer_elaborate xs) = 0"
  by (simp_all add: multiplexer_elaborate_def Let_def foldl_connect_frame
      multiplex_signals_frame multiplex_signals_none [OF assms] connects interface_reset_def)

lemma config_group_none:
  assumes "\<forall>x \<in> set xs. \<not> config_changed x"
  shows "\<not> config_changed (multiplexer_elaborate xs)"
    and "new_config (multiplexer_elaborate xs) = 0"
  by (simp_all add: multiplexer_elaborate_def Let_def foldl_connect_frame
      multiplex_signals_frame multiplex_signals_none [OF assms] connects interface_reset_def)

lemma tx_group_none:
  assumes "\<forall>x \<in> set xs. \<not> tx_valid_any x"
  shows "tx (multiplexer_elaborate xs)
      = \<lparr>stream_valid = 0, stream_first = False, stream_last = False, stream_data = 0\<rparr>"
    and "tx_length (multiplexer_elaborate xs) = 0"
    and "tx_sequence_number (multiplexer_elaborate xs) = 0"
  by (simp_all add: multiplexer_elaborate_def Let_def foldl_connect_frame
      multiplex_signals_frame foldl_connect_none [OF assms] connects interface_reset_def)

lemma handshake_group_none:
  assumes "\<forall>x \<in> set xs. \<not> any_generate_signal_asserted x"
  shows "handshakes_out (multiplexer_elaborate xs)
      = \<lparr>send_ack = False, send_stall = False, handshake_fields = 0\<rparr>"
  by (simp add: multiplexer_elaborate_def Let_def foldl_connect_frame
      multiplex_signals_frame foldl_connect_none [OF assms] connects interface_reset_def)


text \<open>
  C4. Handlers at registration indices \<open>i < j\<close> both assert \<open>address_changed\<close>, and \<open>i\<close>
  is the first handler in registration order that does. Then the shared \<open>address_changed\<close>
  is high and the shared \<open>new_address\<close> is the value of handler \<open>i\<close>: handler \<open>j\<close>, and
  every other handler after \<open>i\<close>, is not considered. The same holds for \<open>config_changed\<close>
  and \<open>new_config\<close>.
\<close>

theorem priority_encoder_first_wins:
  "(i < j \<and> j < length xs \<and> address_changed (xs ! i) \<and> address_changed (xs ! j) \<and>
      (\<forall>k<i. \<not> address_changed (xs ! k)) \<longrightarrow>
    address_changed (multiplexer_elaborate xs) \<and>
    new_address (multiplexer_elaborate xs) = new_address (xs ! i)) \<and>
   (i < j \<and> j < length xs \<and> config_changed (xs ! i) \<and> config_changed (xs ! j) \<and>
      (\<forall>k<i. \<not> config_changed (xs ! k)) \<longrightarrow>
    config_changed (multiplexer_elaborate xs) \<and>
    new_config (multiplexer_elaborate xs) = new_config (xs ! i))"
proof (intro conjI impI)
  assume h: "i < j \<and> j < length xs \<and> address_changed (xs ! i) \<and> address_changed (xs ! j) \<and>
      (\<forall>k<i. \<not> address_changed (xs ! k))"
  then have "i < length xs" "address_changed (xs ! i)" "\<forall>k<i. \<not> address_changed (xs ! k)"
    by simp_all
  from address_group_first [OF this] h
  show "address_changed (multiplexer_elaborate xs)"
    and "new_address (multiplexer_elaborate xs) = new_address (xs ! i)"
    by simp_all
next
  assume h: "i < j \<and> j < length xs \<and> config_changed (xs ! i) \<and> config_changed (xs ! j) \<and>
      (\<forall>k<i. \<not> config_changed (xs ! k))"
  then have "i < length xs" "config_changed (xs ! i)" "\<forall>k<i. \<not> config_changed (xs ! k)"
    by simp_all
  from config_group_first [OF this] h
  show "config_changed (multiplexer_elaborate xs)"
    and "new_config (multiplexer_elaborate xs) = new_config (xs ! i)"
    by simp_all
qed

theorem priority_encoder_first_wins_witness:
  "((1::nat) < 2 \<and> 2 < length [handler, sets_both 5 7, sets_both 9 3] \<and>
      address_changed ([handler, sets_both 5 7, sets_both 9 3] ! 1) \<and>
      address_changed ([handler, sets_both 5 7, sets_both 9 3] ! 2) \<and>
      \<not> address_changed ([handler, sets_both 5 7, sets_both 9 3] ! 0)) \<and>
   address_changed (multiplexer_elaborate [handler, sets_both 5 7, sets_both 9 3]) \<and>
   new_address (multiplexer_elaborate [handler, sets_both 5 7, sets_both 9 3]) = 5 \<and>
   (config_changed ([handler, sets_both 5 7, sets_both 9 3] ! 1) \<and>
      config_changed ([handler, sets_both 5 7, sets_both 9 3] ! 2) \<and>
      \<not> config_changed ([handler, sets_both 5 7, sets_both 9 3] ! 0)) \<and>
   config_changed (multiplexer_elaborate [handler, sets_both 5 7, sets_both 9 3]) \<and>
   new_config (multiplexer_elaborate [handler, sets_both 5 7, sets_both 9 3]) = 7"
proof -
  define xs where "xs = [handler, sets_both 5 7, sets_both 9 3]"
  have len: "(1::nat) < 2" "2 < length xs"
    by (simp_all add: xs_def)
  have at: "xs ! 0 = handler" "xs ! 1 = sets_both 5 7" "xs ! 2 = sets_both 9 3"
    by (simp_all add: xs_def)
  have a: "address_changed (xs ! 1)" "address_changed (xs ! 2)"
    "\<forall>k<1. \<not> address_changed (xs ! k)"
    using at by (simp_all add: handlers)
  have c: "config_changed (xs ! 1)" "config_changed (xs ! 2)"
    "\<forall>k<1. \<not> config_changed (xs ! k)"
    using at by (simp_all add: handlers)
  have v: "new_address (xs ! 1) = 5" "new_config (xs ! 1) = 7"
    using at by (simp_all add: handlers)
  have z: "\<not> address_changed (xs ! 0)" "\<not> config_changed (xs ! 0)"
    using at by (simp_all add: handlers)
  from priority_encoder_first_wins [of 1 2 xs] len a c v z
  show ?thesis
    unfolding xs_def [symmetric] by simp
qed

text \<open>
  C5. Handlers at registration indices \<open>i < j\<close> both assert a handshake trigger (\<open>send_ack\<close>
  or \<open>send_stall\<close>), and \<open>j\<close> is the last handler in registration order that does. Then the
  whole shared \<open>handshakes_out\<close> is that of handler \<open>j\<close>.
\<close>

theorem handshake_last_wins:
  assumes "i < j" and "j < length xs"
    and "send_ack (handshakes_out (xs ! i)) \<or> send_stall (handshakes_out (xs ! i))"
    and "send_ack (handshakes_out (xs ! j)) \<or> send_stall (handshakes_out (xs ! j))"
    and "\<forall>k. j < k \<and> k < length xs \<longrightarrow>
           \<not> (send_ack (handshakes_out (xs ! k)) \<or> send_stall (handshakes_out (xs ! k)))"
  shows "handshakes_out (multiplexer_elaborate xs) = handshakes_out (xs ! j)"
proof -
  have on: "any_generate_signal_asserted (xs ! j)"
    using assms(4) by (simp add: any_generate_signal_asserted_def)
  have later: "\<forall>k. j < k \<and> k < length xs \<longrightarrow> \<not> any_generate_signal_asserted (xs ! k)"
    using assms(5) by (simp add: any_generate_signal_asserted_def)
  from handshake_group_last [OF assms(2) on later] show ?thesis .
qed

theorem handshake_last_wins_witness:
  "(0::nat) < 1 \<and> 1 < length [acks 11, stalls 22, handler] \<and>
   (send_ack (handshakes_out ([acks 11, stalls 22, handler] ! 0)) \<or>
    send_stall (handshakes_out ([acks 11, stalls 22, handler] ! 0))) \<and>
   (send_ack (handshakes_out ([acks 11, stalls 22, handler] ! 1)) \<or>
    send_stall (handshakes_out ([acks 11, stalls 22, handler] ! 1))) \<and>
   handshakes_out (multiplexer_elaborate [acks 11, stalls 22, handler])
     = \<lparr>send_ack = False, send_stall = True, handshake_fields = 22\<rparr>"
proof -
  define xs where "xs = [acks 11, stalls 22, handler]"
  have len: "(0::nat) < 1" "1 < length xs"
    by (simp_all add: xs_def)
  have at: "xs ! 0 = acks 11" "xs ! 1 = stalls 22"
    by (simp_all add: xs_def)
  have hi: "send_ack (handshakes_out (xs ! 0)) \<or> send_stall (handshakes_out (xs ! 0))"
    using at by (simp add: handlers)
  have hj: "send_ack (handshakes_out (xs ! 1)) \<or> send_stall (handshakes_out (xs ! 1))"
    using at by (simp add: handlers)
  have later: "\<forall>k. 1 < k \<and> k < length xs \<longrightarrow>
      \<not> (send_ack (handshakes_out (xs ! k)) \<or> send_stall (handshakes_out (xs ! k)))"
  proof (intro allI impI)
    fix k assume "1 < k \<and> k < length xs"
    then have "k = 2" by (simp add: xs_def)
    then show "\<not> (send_ack (handshakes_out (xs ! k)) \<or> send_stall (handshakes_out (xs ! k)))"
      by (simp add: xs_def handlers)
  qed
  have v: "handshakes_out (xs ! 1)
      = \<lparr>send_ack = False, send_stall = True, handshake_fields = 22\<rparr>"
    using at by (simp add: handlers)
  from handshake_last_wins [OF len hi hj later] len hi hj v
  show ?thesis
    unfolding xs_def [symmetric] by simp
qed

text \<open>
  C6. A handler whose \<open>tx.valid\<close> has a bit set drives the shared \<open>tx\<close> stream,
  \<open>tx_length\<close> and \<open>tx_sequence_number\<close>; among the handlers that do so in the same cycle,
  the one last in registration order determines all three.
\<close>

theorem tx_last_wins:
  assumes "j < length xs"
    and "any_bits (stream_valid (tx (xs ! j)))"
    and "\<forall>k. j < k \<and> k < length xs \<longrightarrow> \<not> any_bits (stream_valid (tx (xs ! k)))"
  shows "tx (multiplexer_elaborate xs) = tx (xs ! j) \<and>
         tx_length (multiplexer_elaborate xs) = tx_length (xs ! j) \<and>
         tx_sequence_number (multiplexer_elaborate xs) = tx_sequence_number (xs ! j)"
proof -
  have on: "tx_valid_any (xs ! j)"
    using assms(2) by (simp add: tx_valid_any_def)
  have later: "\<forall>k. j < k \<and> k < length xs \<longrightarrow> \<not> tx_valid_any (xs ! k)"
    using assms(3) by (simp add: tx_valid_any_def)
  from tx_group_last [OF assms(1) on later] show ?thesis by simp
qed

theorem tx_last_wins_witness:
  "1 < length [sends 0xAA 1 2, sends 0xBB 3 4, handler] \<and>
   any_bits (stream_valid (tx ([sends 0xAA 1 2, sends 0xBB 3 4, handler] ! 0))) \<and>
   any_bits (stream_valid (tx ([sends 0xAA 1 2, sends 0xBB 3 4, handler] ! 1))) \<and>
   stream_data (tx (multiplexer_elaborate [sends 0xAA 1 2, sends 0xBB 3 4, handler])) = 0xBB \<and>
   tx_length (multiplexer_elaborate [sends 0xAA 1 2, sends 0xBB 3 4, handler]) = 3 \<and>
   tx_sequence_number (multiplexer_elaborate [sends 0xAA 1 2, sends 0xBB 3 4, handler]) = 4"
proof -
  define xs where "xs = [sends 0xAA 1 2, sends 0xBB 3 4, handler]"
  have len: "1 < length xs"
    by (simp add: xs_def)
  have at: "xs ! 0 = sends 0xAA 1 2" "xs ! 1 = sends 0xBB 3 4"
    by (simp_all add: xs_def)
  have on: "any_bits (stream_valid (tx (xs ! 0)))" "any_bits (stream_valid (tx (xs ! 1)))"
    using at by (simp_all add: handlers any_bits_def)
  have later: "\<forall>k. 1 < k \<and> k < length xs \<longrightarrow> \<not> any_bits (stream_valid (tx (xs ! k)))"
  proof (intro allI impI)
    fix k assume "1 < k \<and> k < length xs"
    then have "k = 2" by (simp add: xs_def)
    then show "\<not> any_bits (stream_valid (tx (xs ! k)))"
      by (simp add: xs_def handlers any_bits_def)
  qed
  have v: "stream_data (tx (xs ! 1)) = 0xBB" "tx_length (xs ! 1) = 3"
    "tx_sequence_number (xs ! 1) = 4"
    using at by (simp_all add: handlers)
  from tx_last_wins [OF len on(2) later] len on v
  show ?thesis
    unfolding xs_def [symmetric] by simp
qed

text \<open>
  C9. When no registered handler asserts the trigger of a group, the shared outputs of
  that group have their reset values: \<open>address_changed\<close> and \<open>new_address\<close>,
  \<open>config_changed\<close> and \<open>new_config\<close>, the \<open>tx\<close> stream with its length and sequence
  number, and the triggers of \<open>handshakes_out\<close> are all low.
\<close>

theorem undriven_groups_low:
  "((\<forall>x \<in> set xs. \<not> address_changed x) \<longrightarrow>
      \<not> address_changed (multiplexer_elaborate xs) \<and>
      new_address (multiplexer_elaborate xs) = 0) \<and>
   ((\<forall>x \<in> set xs. \<not> config_changed x) \<longrightarrow>
      \<not> config_changed (multiplexer_elaborate xs) \<and>
      new_config (multiplexer_elaborate xs) = 0) \<and>
   ((\<forall>x \<in> set xs. \<not> any_bits (stream_valid (tx x))) \<longrightarrow>
      \<not> any_bits (stream_valid (tx (multiplexer_elaborate xs))) \<and>
      tx_length (multiplexer_elaborate xs) = 0 \<and>
      tx_sequence_number (multiplexer_elaborate xs) = 0) \<and>
   ((\<forall>x \<in> set xs. \<not> (send_ack (handshakes_out x) \<or> send_stall (handshakes_out x))) \<longrightarrow>
      \<not> send_ack (handshakes_out (multiplexer_elaborate xs)) \<and>
      \<not> send_stall (handshakes_out (multiplexer_elaborate xs)))"
proof (intro conjI impI)
  assume h: "\<forall>x \<in> set xs. \<not> address_changed x"
  from address_group_none [OF h]
  show "\<not> address_changed (multiplexer_elaborate xs)"
    and "new_address (multiplexer_elaborate xs) = 0"
    by simp_all
next
  assume h: "\<forall>x \<in> set xs. \<not> config_changed x"
  from config_group_none [OF h]
  show "\<not> config_changed (multiplexer_elaborate xs)"
    and "new_config (multiplexer_elaborate xs) = 0"
    by simp_all
next
  assume "\<forall>x \<in> set xs. \<not> any_bits (stream_valid (tx x))"
  then have h: "\<forall>x \<in> set xs. \<not> tx_valid_any x"
    by (simp add: tx_valid_any_def)
  from tx_group_none [OF h]
  show "\<not> any_bits (stream_valid (tx (multiplexer_elaborate xs)))"
    and "tx_length (multiplexer_elaborate xs) = 0"
    and "tx_sequence_number (multiplexer_elaborate xs) = 0"
    by (simp_all add: any_bits_def)
next
  assume "\<forall>x \<in> set xs. \<not> (send_ack (handshakes_out x) \<or> send_stall (handshakes_out x))"
  then have h: "\<forall>x \<in> set xs. \<not> any_generate_signal_asserted x"
    by (simp add: any_generate_signal_asserted_def)
  from handshake_group_none [OF h]
  show "\<not> send_ack (handshakes_out (multiplexer_elaborate xs))"
    and "\<not> send_stall (handshakes_out (multiplexer_elaborate xs))"
    by simp_all
qed

theorem undriven_groups_low_witness:
  "\<not> address_changed handler \<and> \<not> address_changed silent \<and>
   \<not> config_changed handler \<and> \<not> config_changed silent \<and>
   \<not> any_bits (stream_valid (tx handler)) \<and> \<not> any_bits (stream_valid (tx silent)) \<and>
   \<not> send_ack (handshakes_out handler) \<and> \<not> send_stall (handshakes_out handler) \<and>
   \<not> send_ack (handshakes_out silent) \<and> \<not> send_stall (handshakes_out silent) \<and>
   new_address silent = 5 \<and> new_config silent = 9 \<and> tx_length silent = 64 \<and>
   \<not> address_changed (multiplexer_elaborate [handler, silent]) \<and>
   new_address (multiplexer_elaborate [handler, silent]) = 0 \<and>
   \<not> config_changed (multiplexer_elaborate [handler, silent]) \<and>
   new_config (multiplexer_elaborate [handler, silent]) = 0 \<and>
   \<not> any_bits (stream_valid (tx (multiplexer_elaborate [handler, silent]))) \<and>
   tx_length (multiplexer_elaborate [handler, silent]) = 0 \<and>
   \<not> send_ack (handshakes_out (multiplexer_elaborate [handler, silent])) \<and>
   \<not> send_stall (handshakes_out (multiplexer_elaborate [handler, silent]))"
proof -
  have a: "\<forall>x \<in> set [handler, silent]. \<not> address_changed x"
    and c: "\<forall>x \<in> set [handler, silent]. \<not> config_changed x"
    and t: "\<forall>x \<in> set [handler, silent]. \<not> any_bits (stream_valid (tx x))"
    and h: "\<forall>x \<in> set [handler, silent].
      \<not> (send_ack (handshakes_out x) \<or> send_stall (handshakes_out x))"
    by (simp_all add: silent_def handlers any_bits_def)
  have v: "new_address silent = 5" "new_config silent = 9" "tx_length silent = 64"
    by (simp_all add: silent_def handlers)
  have quiet_handlers:
    "\<not> address_changed handler" "\<not> address_changed silent"
    "\<not> config_changed handler" "\<not> config_changed silent"
    "\<not> any_bits (stream_valid (tx handler))" "\<not> any_bits (stream_valid (tx silent))"
    "\<not> send_ack (handshakes_out handler)" "\<not> send_stall (handshakes_out handler)"
    "\<not> send_ack (handshakes_out silent)" "\<not> send_stall (handshakes_out silent)"
    by (simp_all add: silent_def handlers any_bits_def)
  from undriven_groups_low [of "[handler, silent]"] a c t h
  have low:
    "\<not> address_changed (multiplexer_elaborate [handler, silent])"
    "new_address (multiplexer_elaborate [handler, silent]) = 0"
    "\<not> config_changed (multiplexer_elaborate [handler, silent])"
    "new_config (multiplexer_elaborate [handler, silent]) = 0"
    "\<not> any_bits (stream_valid (tx (multiplexer_elaborate [handler, silent])))"
    "tx_length (multiplexer_elaborate [handler, silent]) = 0"
    "\<not> send_ack (handshakes_out (multiplexer_elaborate [handler, silent]))"
    "\<not> send_stall (handshakes_out (multiplexer_elaborate [handler, silent]))"
    by blast+
  from quiet_handlers v low show ?thesis
    by (intro conjI)
qed


section \<open>Properties of the stall-only handler\<close>

text \<open>What the two nested \<^verbatim>\<open>If\<close>s compute, and when the module is built at all.\<close>

lemma stall_logic_iff:
  "stall_logic P r i \<longleftrightarrow>
     P (interface_setup i) \<and>
     (data_requested i \<or> status_requested i \<or>
      (rx_valid_delayed r \<and> \<not> bit (rx_valid i) 0))"
  by (auto simp add: stall_logic_def Let_def falling_edge_detected_def)

lemma stall_logic_next_cycle:
  "stall_logic P (stall_handler_step r p) i \<longleftrightarrow>
     P (interface_setup i) \<and>
     (data_requested i \<or> status_requested i \<or>
      (bit (rx_valid p) 0 \<and> \<not> bit (rx_valid i) 0))"
  by (simp add: stall_logic_iff stall_handler_step_def)

lemma stall_only_elaborate_cases:
  "stall_only_elaborate others P =
     (if ''stall'' \<in> set others then Inr (stall_logic P) else Inl (AttributeError ''stall''))"
  by (simp add: stall_only_elaborate_def record_getattr_def handshake_generator_layout_def)

text \<open>
  C7. The stall signal is asked to be high exactly when the predicate holds of the current
  SetupPacket and \<open>data_requested\<close>, \<open>status_requested\<close> or a falling edge of the inbound
  validity holds. The handler drives \<^verbatim>\<open>handshakes_out.stall\<close>, while the handshake record
  has the trigger \<^verbatim>\<open>send_stall\<close>, as the multiplexer of the same file reads it. With the
  fields the source names, building the handler raises \<^verbatim>\<open>AttributeError\<close>, for any
  predicate: the handler never asserts a stall.
\<close>

theorem stall_only_elaborate_raises:
  "(stall_only_elaborate [] is_get_descriptor
      :: error + (stall_handler \<Rightarrow> 4 word stall_handler_in \<Rightarrow> bool))
     = Inl (AttributeError ''stall'')"
  by (simp add: stall_only_elaborate_cases)

end
